theory Spec2Isabelle
  imports Main "HOL-Library.AList" "HOL-Library.Sublist"
begin

section \<open>Settings mappings\<close>

text \<open>
  The settings mapping of the library is a Go \<^verbatim>\<open>map[string]interface{}\<close>. A Go map is a
  reference: \<^verbatim>\<open>applyGlobalEnvSettings\<close> writes into the section maps it finds inside
  the top-level map, and the caller sees those writes. The model therefore keeps the maps in
  a store, addressed by \<open>addr\<close>, and a value of type \<^verbatim>\<open>interface{}\<close> that holds a
  \<^verbatim>\<open>map[string]interface{}\<close> is the address of that map.

  A map is the list of its entries; the order of the list is the order in which a
  \<^verbatim>\<open>range\<close> loop of the run visits them (Go leaves that order open, and the theorems
  below hold for every list). Go keeps the keys of a map distinct; where a theorem needs
  that, it says so.
\<close>

type_synonym addr = nat

datatype val =
    VNil                              \<comment> \<open>the nil interface value\<close>
  | VBool bool
  | VInt int
  | VStr string
  | VStrMap "(string \<times> string) list"  \<comment> \<open>a map of another Go type, e.g. \<^verbatim>\<open>map[string]string\<close>\<close>
  | VMap addr                         \<comment> \<open>a \<^verbatim>\<open>map[string]interface{}\<close>\<close>

type_synonym gomap = "(string \<times> val) list"

type_synonym store = "addr \<Rightarrow> gomap"

text \<open>\<^verbatim>\<open>v, ok := m[k]\<close> is \<open>map_of m k\<close>; \<^verbatim>\<open>m[k] = v\<close> is \<open>map_store k v m\<close>.\<close>

definition map_store :: "string \<Rightarrow> val \<Rightarrow> gomap \<Rightarrow> gomap" where
  "map_store k v m = AList.update k v m"

text \<open>
  A value is a section when the type switch \<^verbatim>\<open>case map[string]interface{}\<close> selects it.
  The sections of a map are the addresses of its section values.
\<close>

definition is_section :: "val \<Rightarrow> bool" where
  "is_section v = (case v of VMap _ \<Rightarrow> True | _ \<Rightarrow> False)"

definition sections :: "gomap \<Rightarrow> addr set" where
  "sections m = {a. VMap a \<in> snd ` set m}"

section \<open>The global settings promoter\<close>

text \<open>
  \<^verbatim>\<open>
  globalEnvs := make(map[string]interface{})
  for k, v := range allSettings {
      switch v := v.(type) {
      case map[string]interface{}:
          continue
      default:
          globalEnvs[k] = v
      }
  }
  \<close>
  The first argument is what is left of the iteration, the second is \<^verbatim>\<open>globalEnvs\<close>.
\<close>

fun collect_globals :: "gomap \<Rightarrow> gomap \<Rightarrow> gomap" where
  "collect_globals [] globalEnvs = globalEnvs"
| "collect_globals ((k, v) # rest) globalEnvs =
     (case v of
        VMap _ \<Rightarrow> collect_globals rest globalEnvs
      | _ \<Rightarrow> collect_globals rest (map_store k v globalEnvs))"

text \<open>
  \<^verbatim>\<open>
  for gKey, gVal := range globalEnvs {
      if _, ok := v[gKey]; !ok {
          v[gKey] = gVal
      }
  }
  \<close>
  The second argument is the section map \<^verbatim>\<open>v\<close>.
\<close>

fun inject_globals :: "gomap \<Rightarrow> gomap \<Rightarrow> gomap" where
  "inject_globals [] v = v"
| "inject_globals ((gKey, gVal) # rest) v =
     (case map_of v gKey of
        None \<Rightarrow> inject_globals rest (map_store gKey gVal v)
      | Some _ \<Rightarrow> inject_globals rest v)"

text \<open>
  \<^verbatim>\<open>
  for _, v := range allSettings {
      switch v := v.(type) {
      case map[string]interface{}:
          ... inject globalEnvs into v ...
      }
  }
  \<close>
  The loop runs over the entries of the top-level map as they were when it started; each
  section is read from, and written back to, the current store, so two keys that hold the
  same map are handled as Go handles them.
\<close>

fun apply_sections :: "gomap \<Rightarrow> gomap \<Rightarrow> store \<Rightarrow> store" where
  "apply_sections [] globalEnvs s = s"
| "apply_sections ((k, v) # rest) globalEnvs s =
     (case v of
        VMap a \<Rightarrow> apply_sections rest globalEnvs (s(a := inject_globals globalEnvs (s a)))
      | _ \<Rightarrow> apply_sections rest globalEnvs s)"

text \<open>The function returns its argument, the address of the (mutated) map.\<close>

definition applyGlobalEnvSettings :: "store \<Rightarrow> addr \<Rightarrow> store \<times> addr" where
  "applyGlobalEnvSettings s allSettings =
     (let globalEnvs = collect_globals (s allSettings) []
      in (apply_sections (s allSettings) globalEnvs s, allSettings))"

subsection \<open>A settings file with two sections\<close>

text \<open>
  \<^verbatim>\<open>
  name: "X"
  server:   { host: "h1" }
  postgres: { name: "pg", pool: { size: 5 } }
  \<close>
  The top-level map is at address 0, \<open>server\<close> at 1, \<open>postgres\<close> at 2 and the nested
  \<open>pool\<close> at 3.
\<close>

definition two_sections :: store where
  "two_sections =
     (\<lambda>_. [])
       (0 := [(''name'', VStr ''X''), (''server'', VMap 1), (''postgres'', VMap 2)],
        1 := [(''host'', VStr ''h1'')],
        2 := [(''name'', VStr ''pg''), (''pool'', VMap 3)],
        3 := [(''size'', VInt 5)])"

section \<open>Decoding into the target structure\<close>

text \<open>
  \<open>Unmarshal\<close> hands the settings to libraries that are not part of this repository:
  viper (the settings source), mapstructure (the decoder), go-playground/validator and
  creasty/defaults. They are parameters of the model. The type \<open>'c\<close> is the state of the
  structure that the argument \<^verbatim>\<open>config\<close> points to; a function that writes through that
  pointer returns the new state, also when it fails.
\<close>

datatype error =
    DecodeError string      \<comment> \<open>an error returned by mapstructure\<close>
  | ValidationError string  \<comment> \<open>the error built by \<^verbatim>\<open>validateConfig\<close>\<close>
  | DefaultsError string    \<comment> \<open>an error returned by \<^verbatim>\<open>defaults.Set\<close>\<close>
  | Panic string            \<comment> \<open>a run-time panic: the call does not return\<close>

text \<open>\<^verbatim>\<open>reflect.Kind\<close>, as far as the hook tests it.\<close>

datatype kind = KMap | KOther

fun kind_of :: "val \<Rightarrow> kind" where
  "kind_of (VMap _) = KMap"
| "kind_of (VStrMap _) = KMap"
| "kind_of _ = KOther"

text \<open>
  What a decode hook hands back to the decoder: the data it was given, or the pointer
  \<^verbatim>\<open>config\<close>.
\<close>

datatype hook_value = Data val | ConfigPtr

text \<open>
  The result of \<^verbatim>\<open>validate.Struct\<close>: nil, a \<^verbatim>\<open>validator.ValidationErrors\<close> with the
  \<^verbatim>\<open>Field()\<close> and \<^verbatim>\<open>Tag()\<close> of each violation, or an \<^verbatim>\<open>*InvalidValidationError\<close> (the
  argument is not a structure).
\<close>

datatype validation =
    Valid
  | ValidationErrors "(string \<times> string) list"
  | InvalidValidationError

type_synonym 'c hook = "store \<Rightarrow> kind \<Rightarrow> string \<Rightarrow> val \<Rightarrow> 'c \<Rightarrow> (error + hook_value) \<times> 'c"

record 'c collaborators =
  viper_AllSettings :: "store \<Rightarrow> store \<times> addr"
    \<comment> \<open>\<^verbatim>\<open>c.v.AllSettings()\<close>: builds the settings mapping in the store\<close>
  mapstructure_NewDecoder :: "'c \<Rightarrow> string option"
    \<comment> \<open>the error of \<^verbatim>\<open>mapstructure.NewDecoder\<close>, if any\<close>
  mapstructure_Decode :: "store \<Rightarrow> addr \<Rightarrow> 'c \<Rightarrow> error option \<times> 'c"
    \<comment> \<open>\<^verbatim>\<open>decoder.Decode(settings)\<close> with \<^verbatim>\<open>WeaklyTypedInput\<close>, \<^verbatim>\<open>ZeroFields\<close> and tag \<^verbatim>\<open>env\<close>\<close>
  viper_Unmarshal :: "store \<Rightarrow> 'c hook \<Rightarrow> 'c \<Rightarrow> error option \<times> 'c"
    \<comment> \<open>\<^verbatim>\<open>c.v.Unmarshal(config, viper.DecodeHook(hook))\<close>\<close>
  validator_Struct :: "'c \<Rightarrow> validation"
  defaults_Set :: "'c \<Rightarrow> error option \<times> 'c"

text \<open>
  \<^verbatim>\<open>strings.ToLower\<close> on ASCII: the letters \<open>A\<close> to \<open>Z\<close> (65 to 90) move to \<open>a\<close> to \<open>z\<close>.
  Go also lowers letters beyond ASCII; the names used here are ASCII.
\<close>

definition lower_char :: "char \<Rightarrow> char" where
  "lower_char c =
     (let n = of_char c :: nat in if 65 \<le> n \<and> n \<le> 90 then char_of (n + 32) else c)"

definition ToLower :: "string \<Rightarrow> string" where
  "ToLower str = map lower_char str"

text \<open>\<^verbatim>\<open>strings.Join(elems, sep)\<close>.\<close>

fun Join :: "string list \<Rightarrow> string \<Rightarrow> string" where
  "Join [] sep = []"
| "Join [e] sep = e"
| "Join (e # es) sep = e @ sep @ Join es sep"

text \<open>
  \<^verbatim>\<open>
  decoder, err := mapstructure.NewDecoder(decoderConfig)
  if err != nil {
      return err
  }
  return decoder.Decode(settings)
  \<close>
\<close>

definition decodeConfig :: "'c collaborators \<Rightarrow> store \<Rightarrow> addr \<Rightarrow> 'c \<Rightarrow> error option \<times> 'c" where
  "decodeConfig ext s settings config =
     (case mapstructure_NewDecoder ext config of
        Some err \<Rightarrow> (Some (DecodeError err), config)
      | None \<Rightarrow> mapstructure_Decode ext s settings config)"

text \<open>
  \<^verbatim>\<open>
  return func(f reflect.Type, t reflect.Type, data interface{}) (interface{}, error) {
      if f.Kind() == reflect.Map && data != nil {
          v, ok := data.(map[string]interface{})[strings.ToLower(t.Name())]
          if !ok {
              return data, nil
          }
          if err := decodeConfig(v.(map[string]interface{}), config); err != nil {
              return nil, err
          }
          return config, nil
      }
      return data, nil
  }
  \<close>
  The arguments are the kind of \<^verbatim>\<open>f\<close>, the name of \<^verbatim>\<open>t\<close> and \<^verbatim>\<open>data\<close>. The two type
  assertions have no \<^verbatim>\<open>ok\<close> result: when the value is not a
  \<^verbatim>\<open>map[string]interface{}\<close> they panic. \<^verbatim>\<open>config\<close> is the argument of \<open>Unmarshal\<close>,
  whatever \<^verbatim>\<open>t\<close> is.
\<close>

definition mapstructureDecodeHook :: "'c collaborators \<Rightarrow> 'c hook" where
  "mapstructureDecodeHook ext s f t_Name data config =
     (if f = KMap \<and> data \<noteq> VNil then
        (case data of
           VMap m \<Rightarrow>
             (case map_of (s m) (ToLower t_Name) of
                None \<Rightarrow> (Inr (Data data), config)
              | Some v \<Rightarrow>
                  (case v of
                     VMap section \<Rightarrow>
                       (case decodeConfig ext s section config of
                          (Some err, config') \<Rightarrow> (Inl err, config')
                        | (None, config') \<Rightarrow> (Inr ConfigPtr, config'))
                   | _ \<Rightarrow> (Inl (Panic ''interface conversion: interface {} is not map[string]interface {}''), config)))
         | _ \<Rightarrow> (Inl (Panic ''interface conversion: interface {} is not map[string]interface {}''), config))
      else (Inr (Data data), config))"

text \<open>
  \<^verbatim>\<open>
  if err := validate.Struct(config); err != nil {
      var errorMessages []string
      for _, err := range err.(validator.ValidationErrors) {
          errorMessages = append(errorMessages,
              fmt.Sprintf("validation error: field '%s' is %s", err.Field(), err.Tag()))
      }
      return fmt.Errorf("errors: %s", strings.Join(errorMessages, ", "))
  }
  return nil
  \<close>
  \<open>CHR 0x27\<close> is the single quote.
\<close>

definition errorMessage :: "string \<times> string \<Rightarrow> string" where
  "errorMessage e =
     ''validation error: field '' @ [CHR 0x27] @ fst e @ [CHR 0x27] @ '' is '' @ snd e"

definition validateConfig :: "'c collaborators \<Rightarrow> 'c \<Rightarrow> error option" where
  "validateConfig ext config =
     (case validator_Struct ext config of
        Valid \<Rightarrow> None
      | ValidationErrors errs \<Rightarrow>
          Some (ValidationError (''errors: '' @ Join (map errorMessage errs) '', ''))
      | InvalidValidationError \<Rightarrow>
          Some (Panic ''interface conversion: error is not validator.ValidationErrors''))"

text \<open>
  \<^verbatim>\<open>
  allSettings := applyGlobalEnvSettings(c.v.AllSettings())
  if err := decodeConfig(allSettings, config); err != nil {
      return err
  }
  if err := c.v.Unmarshal(config, viper.DecodeHook(mapstructureDecodeHook(config))); err != nil {
      return err
  }
  if err := validateConfig(config); err != nil {
      return err
  }
  return defaults.Set(config)
  \<close>
  The result is the error, if any, and the state of the target when the call ends.
\<close>

definition Unmarshal :: "'c collaborators \<Rightarrow> store \<Rightarrow> 'c \<Rightarrow> error option \<times> 'c" where
  "Unmarshal ext s config =
     (case viper_AllSettings ext s of (s0, settings) \<Rightarrow>
      case applyGlobalEnvSettings s0 settings of (s1, allSettings) \<Rightarrow>
      case decodeConfig ext s1 allSettings config of
        (Some err, config1) \<Rightarrow> (Some err, config1)
      | (None, config1) \<Rightarrow>
          (case viper_Unmarshal ext s1 (mapstructureDecodeHook ext) config1 of
             (Some err, config2) \<Rightarrow> (Some err, config2)
           | (None, config2) \<Rightarrow>
               (case validateConfig ext config2 of
                  Some err \<Rightarrow> (Some err, config2)
                | None \<Rightarrow> defaults_Set ext config2)))"

section \<open>The collaborators, after their contracts\<close>

text \<open>
  To run \<open>Unmarshal\<close> on an example the four libraries need a definition. The ones below
  follow the contracts the specification gives for them, on targets whose fields are
  strings, integers and nested structures.
\<close>

subsection \<open>Target structures\<close>

text \<open>
  The tags of a field: \<^verbatim>\<open>env:"..."\<close> (empty when the field has none),
  \<^verbatim>\<open>validate:"required"\<close> and \<^verbatim>\<open>default:"..."\<close>.
\<close>

record tags =
  env :: string
  required :: bool
  default_tag :: "string option"

text \<open>
  A structure type has a name and fields; a field has a name, tags and a type. The libraries
  work by reflection and see the exported fields only, those whose name starts with an
  upper-case letter; a field that is not exported is never written, validated or defaulted.
\<close>

datatype ty = TString | TInt | TStruct string fields
and fields = NoFields | Field string tags ty fields

fun Name :: "ty \<Rightarrow> string" where
  "Name TString = ''string''"
| "Name TInt = ''int''"
| "Name (TStruct n fs) = n"

text \<open>
  The state of a target is the value of each of its scalar fields, addressed by the path of
  field names that leads to it, in declaration order.
\<close>

type_synonym target = "(string list \<times> val) list"

fun zero_ty :: "ty \<Rightarrow> string list \<Rightarrow> target"
  and zero_fields :: "fields \<Rightarrow> string list \<Rightarrow> target" where
  "zero_ty TString p = [(p, VStr [])]"
| "zero_ty TInt p = [(p, VInt 0)]"
| "zero_ty (TStruct n fs) p = zero_fields fs p"
| "zero_fields NoFields p = []"
| "zero_fields (Field name tg t rest) p = zero_ty t (p @ [name]) @ zero_fields rest p"

fun is_zero :: "val option \<Rightarrow> bool" where
  "is_zero (Some (VStr x)) = (x = [])"
| "is_zero (Some (VInt i)) = (i = 0)"
| "is_zero _ = False"

definition exported :: "string \<Rightarrow> bool" where
  "exported name =
     (case name of [] \<Rightarrow> False | c # cs \<Rightarrow> 65 \<le> (of_char c :: nat) \<and> (of_char c :: nat) \<le> 90)"

text \<open>The fields of a structure as a list, and the names of all types that occur in a type.\<close>

primrec field_list :: "fields \<Rightarrow> (string \<times> tags \<times> ty) list" where
  "field_list NoFields = []"
| "field_list (Field name tg t rest) = (name, tg, t) # field_list rest"

primrec names_ty :: "ty \<Rightarrow> string list"
  and names_fields :: "fields \<Rightarrow> string list" where
  "names_ty TString = [''string'']"
| "names_ty TInt = [''int'']"
| "names_ty (TStruct n fs) = n # names_fields fs"
| "names_fields NoFields = []"
| "names_fields (Field name tg t rest) = names_ty t @ names_fields rest"

subsection \<open>Weak type coercion\<close>

fun digit :: "char \<Rightarrow> nat option" where
  "digit c = (let n = of_char c :: nat in if 48 \<le> n \<and> n \<le> 57 then Some (n - 48) else None)"

fun parse_digits :: "string \<Rightarrow> nat \<Rightarrow> nat option" where
  "parse_digits [] acc = Some acc"
| "parse_digits (c # cs) acc =
     (case digit c of None \<Rightarrow> None | Some d \<Rightarrow> parse_digits cs (10 * acc + d))"

text \<open>A decimal literal with an optional sign.\<close>

fun ParseInt :: "string \<Rightarrow> int option" where
  "ParseInt [] = None"
| "ParseInt (c # cs) =
     (if c = CHR ''-'' then (if cs = [] then None else map_option (\<lambda>n. - int n) (parse_digits cs 0))
      else if c = CHR ''+'' then (if cs = [] then None else map_option int (parse_digits cs 0))
      else map_option int (parse_digits (c # cs) 0))"

function digits :: "nat \<Rightarrow> string" where
  "digits n =
     (if n < 10 then [char_of (48 + n)] else digits (n div 10) @ [char_of (48 + n mod 10)])"
  by pat_completeness auto
termination
  by (relation "measure id") auto

definition Itoa :: "int \<Rightarrow> string" where
  "Itoa i = (if i < 0 then CHR ''-'' # digits (nat (- i)) else digits (nat i))"

fun weak_string :: "val \<Rightarrow> string option" where
  "weak_string (VStr x) = Some x"
| "weak_string (VInt i) = Some (Itoa i)"
| "weak_string (VBool b) = Some (if b then ''1'' else ''0'')"
| "weak_string _ = None"

fun weak_int :: "val \<Rightarrow> int option" where
  "weak_int (VInt i) = Some i"
| "weak_int (VBool b) = Some (if b then 1 else 0)"
| "weak_int (VStr x) = (if x = [] then Some 0 else ParseInt x)"
| "weak_int _ = None"

fun weak :: "ty \<Rightarrow> val \<Rightarrow> val option" where
  "weak TString d = map_option VStr (weak_string d)"
| "weak TInt d = map_option VInt (weak_int d)"
| "weak (TStruct n fs) d = None"

subsection \<open>The generic decoder\<close>

text \<open>
  Modelled from the spec: the Generic Decoder (mapstructure), which is not part of this
  repository. It ``converts a mapping into a typed structure using field-tag-based key
  matching, weak type coercion (e.g. numeric string \<open>\<rightarrow>\<close> int)'', the keys matched ``case-
  insensitively''. A field whose key the mapping lacks is left as it is. A decode hook,
  when there is one, sees every value before it is decoded, with the type it is decoded
  into, and the decoder goes on with what the hook returns.

  \<open>use_env\<close> says whether the key of a field is its \<^verbatim>\<open>env\<close> tag (as \<^verbatim>\<open>decodeConfig\<close>
  configures the decoder) or its name (viper's decoder reads the tag \<^verbatim>\<open>mapstructure\<close>,
  which the targets here do not carry).
\<close>

definition field_key :: "bool \<Rightarrow> string \<Rightarrow> tags \<Rightarrow> string" where
  "field_key use_env name tg = (if use_env \<and> env tg \<noteq> [] then env tg else name)"

definition lookup_key :: "gomap \<Rightarrow> string \<Rightarrow> val option" where
  "lookup_key m key =
     (case map_of m key of
        Some v \<Rightarrow> Some v
      | None \<Rightarrow> map_option snd (find (\<lambda>e. ToLower (fst e) = ToLower key) m))"

text \<open>The decoder reports the errors of all fields together; a panic ends the decoding.\<close>

fun both :: "error option \<Rightarrow> error option \<Rightarrow> error option" where
  "both None e = e"
| "both (Some e) None = Some e"
| "both (Some (DecodeError a)) (Some (DecodeError b)) = Some (DecodeError (a @ ''; '' @ b))"
| "both (Some (DecodeError a)) (Some e) = Some e"
| "both (Some e) (Some e') = Some e"

text \<open>A value is written into a scalar field after weak coercion.\<close>

definition decode_scalar :: "ty \<Rightarrow> string list \<Rightarrow> val \<Rightarrow> target \<Rightarrow> error option \<times> target" where
  "decode_scalar t p d tgt =
     (case weak t d of
        Some x \<Rightarrow> (None, AList.update p x tgt)
      | None \<Rightarrow> (Some (DecodeError (''expected type '' @ Name t)), tgt))"

text \<open>
  When the data is a structure and not a mapping (the hook has returned the pointer
  \<^verbatim>\<open>config\<close>), the decoder first turns that structure into a mapping, keyed by the keys of
  its exported fields, nested structures becoming nested mappings, and then decodes the
  field from that mapping as from any other. \<open>snap\<close> is the state of the structure when it
  is converted; a source is the path and the type of the part of it that feeds a field.
  The keys of such a mapping are exported field names and start with an upper-case
  letter, while the hook looks up a lower-cased name: the hook returns these mappings and
  their scalar values unchanged, and is left out here.
\<close>

primrec struct_entries :: "fields \<Rightarrow> bool \<Rightarrow> string list \<Rightarrow> (string \<times> string list \<times> ty) list" where
  "struct_entries NoFields use_env q = []"
| "struct_entries (Field name tg t rest) use_env q =
     (if exported name then [(field_key use_env name tg, q @ [name], t)] else [])
       @ struct_entries rest use_env q"

definition entry_of :: "(string \<times> string list \<times> ty) list \<Rightarrow> string \<Rightarrow> (string list \<times> ty) option" where
  "entry_of es key =
     (case map_of (rev es) key of
        Some src \<Rightarrow> Some src
      | None \<Rightarrow> map_option snd (find (\<lambda>e. ToLower (fst e) = ToLower key) es))"

definition convert_scalar :: "ty \<Rightarrow> target \<Rightarrow> string list \<Rightarrow> string list \<times> ty \<Rightarrow> target
                                \<Rightarrow> error option \<times> target" where
  "convert_scalar t snap p src tgt =
     (case snd src of
        TStruct rn rfs \<Rightarrow> (Some (DecodeError (''expected type '' @ Name t)), tgt)
      | _ \<Rightarrow> (case map_of snap (fst src) of
                None \<Rightarrow> (None, tgt)
              | Some v \<Rightarrow> decode_scalar t p v tgt))"

primrec convert_data :: "ty \<Rightarrow> bool \<Rightarrow> target \<Rightarrow> string list \<Rightarrow> string list \<times> ty \<Rightarrow> target
                           \<Rightarrow> error option \<times> target"
  and convert_fields :: "fields \<Rightarrow> bool \<Rightarrow> target \<Rightarrow> string list
                           \<Rightarrow> (string \<times> string list \<times> ty) list \<Rightarrow> target
                           \<Rightarrow> error option \<times> target" where
  "convert_data TString use_env snap p src tgt = convert_scalar TString snap p src tgt"
| "convert_data TInt use_env snap p src tgt = convert_scalar TInt snap p src tgt"
| "convert_data (TStruct n fs) use_env snap p src tgt =
     (case snd src of
        TStruct rn rfs \<Rightarrow>
          convert_fields fs use_env snap p (struct_entries rfs use_env (fst src)) tgt
      | _ \<Rightarrow> (Some (DecodeError ''expected a map''), tgt))"
| "convert_fields NoFields use_env snap p es tgt = (None, tgt)"
| "convert_fields (Field name tg t rest) use_env snap p es tgt =
     (case entry_of es (field_key use_env name tg) of
        None \<Rightarrow> convert_fields rest use_env snap p es tgt
      | Some src \<Rightarrow>
          if \<not> exported name then convert_fields rest use_env snap p es tgt
          else
            (case convert_data t use_env snap (p @ [name]) src tgt of
               (e, tgt') \<Rightarrow>
                 (case convert_fields rest use_env snap p es tgt' of
                    (e', tgt'') \<Rightarrow> (both e e', tgt''))))"

type_synonym target_hook = "kind \<Rightarrow> string \<Rightarrow> val \<Rightarrow> target \<Rightarrow> (error + hook_value) \<times> target"

text \<open>
  A value passes the hook before it is decoded into the type \<open>t\<close> at the path \<open>p\<close>;
  \<open>continue\<close> decodes what the hook returns. Nothing is done for a nil value. When the
  hook returns the pointer \<^verbatim>\<open>config\<close>, the data is the target itself, of type \<open>root\<close>: at
  the empty path the target is assigned to itself, and a field inside the target is decoded
  from the converted target.
\<close>

definition through_hook :: "target_hook option \<Rightarrow> ty \<Rightarrow> bool \<Rightarrow> ty \<Rightarrow> string list \<Rightarrow> val \<Rightarrow> target
                              \<Rightarrow> (val \<Rightarrow> target \<Rightarrow> error option \<times> target)
                              \<Rightarrow> error option \<times> target" where
  "through_hook hk root use_env t p input tgt continue =
     (if input = VNil then (None, tgt)
      else case (case hk of
                   None \<Rightarrow> (Inr (Data input), tgt)
                 | Some h \<Rightarrow> h (kind_of input) (Name t) input tgt) of
             (Inl err, tgt') \<Rightarrow> (Some err, tgt')
           | (Inr ConfigPtr, tgt') \<Rightarrow>
               (if p = [] then (None, tgt')
                else convert_data t use_env tgt' p ([], root) tgt')
           | (Inr (Data d), tgt') \<Rightarrow> continue d tgt')"

primrec decode_data :: "ty \<Rightarrow> bool \<Rightarrow> target_hook option \<Rightarrow> ty \<Rightarrow> store \<Rightarrow> string list \<Rightarrow> val \<Rightarrow> target
                          \<Rightarrow> error option \<times> target"
  and decode_fields :: "fields \<Rightarrow> bool \<Rightarrow> target_hook option \<Rightarrow> ty \<Rightarrow> store \<Rightarrow> string list \<Rightarrow> gomap
                          \<Rightarrow> target \<Rightarrow> error option \<times> target" where
  "decode_data TString use_env hk root s p d tgt = decode_scalar TString p d tgt"
| "decode_data TInt use_env hk root s p d tgt = decode_scalar TInt p d tgt"
| "decode_data (TStruct n fs) use_env hk root s p d tgt =
     (case d of
        VMap a \<Rightarrow> decode_fields fs use_env hk root s p (s a) tgt
      | _ \<Rightarrow> (Some (DecodeError ''expected a map''), tgt))"
| "decode_fields NoFields use_env hk root s p m tgt = (None, tgt)"
| "decode_fields (Field name tg t rest) use_env hk root s p m tgt =
     (case lookup_key m (field_key use_env name tg) of
        None \<Rightarrow> decode_fields rest use_env hk root s p m tgt
      | Some raw \<Rightarrow>
          if \<not> exported name then decode_fields rest use_env hk root s p m tgt
          else
            (case through_hook hk root use_env t (p @ [name]) raw tgt
                    (decode_data t use_env hk root s (p @ [name])) of
               (Some (Panic x), tgt') \<Rightarrow> (Some (Panic x), tgt')
             | (e, tgt') \<Rightarrow>
                 (case decode_fields rest use_env hk root s p m tgt' of
                    (e', tgt'') \<Rightarrow> (both e e', tgt''))))"

definition decode_value :: "bool \<Rightarrow> target_hook option \<Rightarrow> ty \<Rightarrow> store \<Rightarrow> ty \<Rightarrow> string list \<Rightarrow> val
                              \<Rightarrow> target \<Rightarrow> error option \<times> target" where
  "decode_value use_env hk root s t p input tgt =
     through_hook hk root use_env t p input tgt (decode_data t use_env hk root s p)"

text \<open>
  \<^verbatim>\<open>decoder.Decode(settings)\<close> as \<^verbatim>\<open>decodeConfig\<close> configures it: no hook, the \<^verbatim>\<open>env\<close>
  tags, and \<^verbatim>\<open>ZeroFields\<close>, for which the spec says ``all fields reset to zero before
  population''.
\<close>

definition Decode :: "ty \<Rightarrow> store \<Rightarrow> addr \<Rightarrow> target \<Rightarrow> error option \<times> target" where
  "Decode t s settings tgt = decode_value True None t s t [] (VMap settings) (zero_ty t [])"

subsection \<open>The settings source\<close>

text \<open>
  Modelled from the spec: the Settings Source (viper). ``Read from the Settings Source
  fresh each call and mutated locally without affecting the underlying Settings Source
  state'': every call of \<^verbatim>\<open>AllSettings\<close> builds new maps. A source is given by a function
  \<open>build\<close> that writes its mapping into the store from a base address on, and the number
  \<open>n\<close> of maps it writes; \<open>Unmarshal\<close>'s own call builds at 0, the call inside
  \<^verbatim>\<open>viper.Unmarshal\<close> at \<open>n\<close>. viper's decoder has the hook, no \<^verbatim>\<open>ZeroFields\<close>, and
  matches fields by name.
\<close>

type_synonym source = "addr \<Rightarrow> store \<Rightarrow> store"

definition AllSettings :: "source \<Rightarrow> addr \<Rightarrow> store \<Rightarrow> store \<times> addr" where
  "AllSettings build base s = (build base s, base)"

definition viperUnmarshal :: "ty \<Rightarrow> source \<Rightarrow> addr \<Rightarrow> store \<Rightarrow> target hook \<Rightarrow> target
                                \<Rightarrow> error option \<times> target" where
  "viperUnmarshal t build n s hk tgt =
     (case AllSettings build n s of
        (s', settings) \<Rightarrow> decode_value False (Some (hk s')) t s' t [] (VMap settings) tgt)"



subsection \<open>The validator and the default applier\<close>

text \<open>
  Modelled from the spec: the Validator (go-playground/validator), which ``rejects a
  structure failing declared validation rules (e.g. required-field-missing), producing one
  error per violated field''. A required field is violated when it holds the zero value of
  its type; nested structures are visited, fields that are not exported are not.
\<close>

fun violations_ty :: "ty \<Rightarrow> string \<Rightarrow> tags \<Rightarrow> string list \<Rightarrow> target \<Rightarrow> (string \<times> string) list"
  and violations :: "fields \<Rightarrow> string list \<Rightarrow> target \<Rightarrow> (string \<times> string) list" where
  "violations_ty (TStruct n fs) name tg p tgt = violations fs p tgt"
| "violations_ty t name tg p tgt =
     (if required tg \<and> is_zero (map_of tgt p) then [(name, ''required'')] else [])"
| "violations NoFields p tgt = []"
| "violations (Field name tg t rest) p tgt =
     (if exported name then violations_ty t name tg (p @ [name]) tgt else [])
       @ violations rest p tgt"

definition validateStruct :: "ty \<Rightarrow> target \<Rightarrow> validation" where
  "validateStruct t tgt =
     (case t of
        TStruct n fs \<Rightarrow>
          (case violations fs [] tgt of [] \<Rightarrow> Valid | errs \<Rightarrow> ValidationErrors errs)
      | _ \<Rightarrow> InvalidValidationError)"

text \<open>
  Modelled from the spec: the Default Applier (creasty/defaults), which ``fills any field
  still at its zero value with a declared default tag value'', the ``literal string coerced
  to the field's type''; a literal that cannot be coerced is an error.
\<close>

fun default_ty :: "ty \<Rightarrow> tags \<Rightarrow> string list \<Rightarrow> target \<Rightarrow> error option \<times> target"
  and default_fields :: "fields \<Rightarrow> string list \<Rightarrow> target \<Rightarrow> error option \<times> target" where
  "default_ty (TStruct n fs) tg p tgt = default_fields fs p tgt"
| "default_ty TString tg p tgt =
     (case default_tag tg of
        None \<Rightarrow> (None, tgt)
      | Some d \<Rightarrow> if is_zero (map_of tgt p) then (None, AList.update p (VStr d) tgt) else (None, tgt))"
| "default_ty TInt tg p tgt =
     (case default_tag tg of
        None \<Rightarrow> (None, tgt)
      | Some d \<Rightarrow>
          if is_zero (map_of tgt p) then
            (case ParseInt d of
               Some i \<Rightarrow> (None, AList.update p (VInt i) tgt)
             | None \<Rightarrow> (Some (DefaultsError d), tgt))
          else (None, tgt))"
| "default_fields NoFields p tgt = (None, tgt)"
| "default_fields (Field name tg t rest) p tgt =
     (if \<not> exported name then default_fields rest p tgt
      else
        (case default_ty t tg (p @ [name]) tgt of
           (Some err, tgt') \<Rightarrow> (Some err, tgt')
         | (None, tgt') \<Rightarrow> default_fields rest p tgt'))"

definition defaultsSet :: "ty \<Rightarrow> target \<Rightarrow> error option \<times> target" where
  "defaultsSet t tgt = default_ty t \<lparr>env = [], required = False, default_tag = None\<rparr> [] tgt"

text \<open>
  The collaborators of a \<open>Config\<close> whose settings source is \<open>build\<close> (with \<open>n\<close> maps), for
  a target of type \<open>t\<close>. The argument of \<open>Unmarshal\<close> is a pointer to a structure, which
  \<^verbatim>\<open>NewDecoder\<close> accepts.
\<close>

definition libraries :: "ty \<Rightarrow> source \<Rightarrow> addr \<Rightarrow> target collaborators" where
  "libraries t build n =
     \<lparr>viper_AllSettings = AllSettings build 0,
      mapstructure_NewDecoder = (\<lambda>config. None),
      mapstructure_Decode = Decode t,
      viper_Unmarshal = viperUnmarshal t build n,
      validator_Struct = validateStruct t,
      defaults_Set = defaultsSet t\<rparr>"

subsection \<open>Examples\<close>

definition tagged :: "string \<Rightarrow> bool \<Rightarrow> string option \<Rightarrow> tags" where
  "tagged e r d = \<lparr>env = e, required = r, default_tag = d\<rparr>"

text \<open>
  The scenario of the specification: the settings \<^verbatim>\<open>{name: "X", server: {host: "h1"}}\<close>
  and the target
  \<^verbatim>\<open>
  type Server struct { Host, Name string }
  type Settings struct {
      Name   string `env:"name"`
      Server Server
  }
  \<close>
\<close>

definition scenario_settings :: source where
  "scenario_settings b s =
     s(b := [(''name'', VStr ''X''), (''server'', VMap (b + 1))],
       b + 1 := [(''host'', VStr ''h1'')])"



text \<open>
  The example of the README: its \<^verbatim>\<open>.env\<close> file, with the keys in lower case as viper
  returns them, and its three structure types.
\<close>

definition readme_settings :: source where
  "readme_settings b s =
     s(b := [(''name'', VStr ''MyApp1.2''), (''app_environment'', VStr ''local''),
             (''environment'', VStr ''testing3''), (''server_port'', VInt 3000),
             (''server'', VMap (b + 1)), (''postgres'', VMap (b + 2)),
             (''serverconfig'', VMap (b + 3))],
       b + 1 := [(''server_name'', VStr ''MyApp''), (''host'', VStr ''127.0.0.1''),
                 (''environment'', VStr ''dev'')],
       b + 2 := [(''user'', VStr ''admin2''), (''host'', VStr ''localhost''),
                 (''db_port'', VInt 5433)],
       b + 3 := [(''host'', VStr ''localhost2''), (''server_port'', VInt 9000),
                 (''environment'', VStr ''dev3'')])"

definition ServerConfig :: ty where
  "ServerConfig = TStruct ''ServerConfig''
     (Field ''Name'' (tagged ''SERVER_NAME'' False (Some ''my_default_server_name'')) TString
     (Field ''Host'' (tagged ''HOST'' True None) TString
     (Field ''Port'' (tagged ''SERVER_PORT'' False None) TInt
     (Field ''APIKey'' (tagged ''api_key'' False (Some ''my_default_api_key'')) TString
     (Field ''Environment'' (tagged ''ENVIRONMENT'' False (Some ''user_env'')) TString
      NoFields)))))"



text \<open>
  A target with two required fields that no setting of the scenario feeds, one of them with
  a default:
  \<^verbatim>\<open>
  type Listener struct {
      Port int    `env:"PORT" validate:"required" default:"8080"`
      Cert string `env:"CERT" validate:"required"`
  }
  \<close>
\<close>

definition Listener :: ty where
  "Listener = TStruct ''Listener''
     (Field ''Port'' (tagged ''PORT'' True (Some ''8080'')) TInt
     (Field ''Cert'' (tagged ''CERT'' True None) TString NoFields))"

text \<open>
  Settings without sections, \<^verbatim>\<open>{host: "h0", server_port: 8000}\<close>, and settings in which
  the key \<open>database\<close> holds a string, \<^verbatim>\<open>{database: "postgres://db", host: "h0"}\<close>, for the
  target \<^verbatim>\<open>type Database struct { Host string }\<close>.
\<close>

definition global_settings :: source where
  "global_settings b s = s(b := [(''host'', VStr ''h0''), (''server_port'', VInt 8000)])"

definition url_settings :: source where
  "url_settings b s = s(b := [(''database'', VStr ''postgres://db''), (''host'', VStr ''h0'')])"

definition Database :: ty where
  "Database = TStruct ''Database'' (Field ''Host'' (tagged [] False None) TString NoFields)"

text \<open>
  A structure whose only field is a nested structure, and a structure with a required
  field that has a default next to an integer field fed by the key \<open>name\<close>:
  \<^verbatim>\<open>
  type Inner struct { Host string }
  type Outer struct { Inner Inner }
  type Limits struct {
      Port int `env:"PORT" validate:"required" default:"8080"`
      Size int `env:"name"`
  }
  \<close>
\<close>

definition Inner :: ty where
  "Inner = TStruct ''Inner'' (Field ''Host'' (tagged [] False None) TString NoFields)"

definition Outer :: ty where
  "Outer = TStruct ''Outer'' (Field ''Inner'' (tagged [] False None) Inner NoFields)"


text \<open>
  Settings in which the section of a field holds a section named after the field's type,
  \<^verbatim>\<open>{inner: {inner: {host: "x"}}}\<close>.
\<close>

definition nested_settings :: source where
  "nested_settings b s =
     s(b := [(''inner'', VMap (b + 1))],
       b + 1 := [(''inner'', VMap (b + 2))],
       b + 2 := [(''host'', VStr ''x'')])"


section \<open>Properties of the promoter\<close>

lemma map_of_map_store: "map_of (map_store k v m) k' = (if k' = k then Some v else map_of m k')"
  by (simp add: map_store_def update_conv')

lemma keys_map_store: "fst ` set (map_store k v m) = insert k (fst ` set m)"
proof -
  have "set (map fst (map_store k v m)) = insert k (set (map fst m))"
    unfolding map_store_def update_keys by auto
  then show ?thesis by simp
qed

lemma map_of_inject_globals:
  "map_of (inject_globals g m) k =
     (case map_of m k of Some v \<Rightarrow> Some v | None \<Rightarrow> map_of g k)"
proof (induction g arbitrary: m k)
  case Nil
  show ?case by (simp split: option.splits)
next
  case (Cons e g)
  obtain gKey gVal where e: "e = (gKey, gVal)" by (cases e)
  show ?case
  proof (cases "map_of m gKey")
    case None
    then show ?thesis
      by (simp add: e Cons.IH map_of_map_store split: option.splits)
  next
    case (Some w)
    then show ?thesis
      by (cases "k = gKey") (simp_all add: e Cons.IH split: option.splits)
  qed
qed

lemma inject_globals_noop:
  "\<forall>k \<in> fst ` set g. map_of m k \<noteq> None \<Longrightarrow> inject_globals g m = m"
  by (induction g arbitrary: m) (auto split: option.splits)

lemma inject_globals_idem:
  "inject_globals g (inject_globals g m) = inject_globals g m"
proof (rule inject_globals_noop, rule ballI)
  fix k assume "k \<in> fst ` set g"
  then have "map_of g k \<noteq> None"
    by (simp add: map_of_eq_None_iff)
  then show "map_of (inject_globals g m) k \<noteq> None"
    by (simp add: map_of_inject_globals split: option.splits)
qed

lemma keys_collect_globals:
  "fst ` set (collect_globals root g) \<subseteq> fst ` set root \<union> fst ` set g"
proof (induction root arbitrary: g)
  case Nil
  show ?case by simp
next
  case (Cons e root)
  obtain k v where e: "e = (k, v)" by (cases e)
  have "fst ` set (collect_globals root (map_store k v g)) \<subseteq> insert k (fst ` set root \<union> fst ` set g)"
    using Cons.IH [of "map_store k v g"] by (auto simp: keys_map_store)
  moreover have "fst ` set (collect_globals root g) \<subseteq> insert k (fst ` set root \<union> fst ` set g)"
    using Cons.IH [of g] by auto
  ultimately show ?case
    by (cases v) (simp_all add: e)
qed

lemma collect_globals_Cons:
  "collect_globals ((k, v) # rest) g =
     (if is_section v then collect_globals rest g else collect_globals rest (map_store k v g))"
  by (cases v) (simp_all add: is_section_def)

lemma map_of_collect_globals:
  "distinct (map fst root) \<Longrightarrow>
   map_of (collect_globals root g) k =
     (case map_of root k of
        None \<Rightarrow> map_of g k
      | Some v \<Rightarrow> if is_section v then map_of g k else Some v)"
proof (induction root arbitrary: g k)
  case Nil
  show ?case by simp
next
  case (Cons e root)
  obtain k' v' where e: "e = (k', v')" by (cases e)
  from Cons.prems have d: "distinct (map fst root)" and n: "map_of root k' = None"
    by (auto simp: e map_of_eq_None_iff)
  show ?case
  proof (cases "k = k'")
    case True
    then show ?thesis
      by (simp add: e collect_globals_Cons Cons.IH [OF d] n map_of_map_store
               del: collect_globals.simps)
  next
    case False
    then show ?thesis
      by (simp add: e collect_globals_Cons Cons.IH [OF d] map_of_map_store
               del: collect_globals.simps split: option.splits)
  qed
qed

lemma sections_Cons:
  "sections ((k, v) # m) = (case v of VMap a \<Rightarrow> insert a (sections m) | _ \<Rightarrow> sections m)"
  by (cases v) (auto simp: sections_def)

lemma apply_sections_eq:
  "apply_sections entries g s =
     (\<lambda>b. if b \<in> sections entries then inject_globals g (s b) else s b)"
proof (induction entries arbitrary: s)
  case Nil
  show ?case by (simp add: sections_def)
next
  case (Cons e entries)
  obtain k v where e: "e = (k, v)" by (cases e)
  show ?case
    by (cases v) (auto simp: e Cons.IH sections_Cons inject_globals_idem)
qed

lemma inject_own_globals:
  "inject_globals (collect_globals m []) m = m"
proof (rule inject_globals_noop, rule ballI)
  fix k assume "k \<in> fst ` set (collect_globals m [])"
  then have "k \<in> fst ` set m"
    using keys_collect_globals [of m "[]"] by auto
  then show "map_of m k \<noteq> None"
    by (simp add: map_of_eq_None_iff)
qed

lemma applyGlobalEnvSettings_eq:
  "applyGlobalEnvSettings s root =
     ((\<lambda>b. if b \<in> sections (s root) then inject_globals (collect_globals (s root) []) (s b) else s b),
      root)"
  by (simp add: applyGlobalEnvSettings_def apply_sections_eq)

lemma applyGlobalEnvSettings_top:
  "fst (applyGlobalEnvSettings s root) root = s root"
  by (simp add: applyGlobalEnvSettings_eq inject_own_globals)

text \<open>
  The order of iteration does not matter. Two enumerations of the same top-level map
  collect the same globals, and the sections end up as the same maps whatever the order in
  which the entries and the globals are visited.
\<close>

lemma collect_globals_order:
  assumes "distinct (map fst m)" and "distinct (map fst m')" and "set m' = set m"
  shows "map_of (collect_globals m' []) = map_of (collect_globals m [])"
proof -
  from assms have "map_of m' = map_of m"
    by (simp add: map_of_inject_set)
  with assms show ?thesis
    by (simp add: fun_eq_iff map_of_collect_globals)
qed

lemma apply_sections_order:
  assumes "set entries' = set entries" and "map_of g' = map_of g"
  shows "map_of (apply_sections entries' g' s b) = map_of (apply_sections entries g s b)"
proof -
  from assms(1) have "sections entries' = sections entries"
    by (simp add: sections_def)
  with assms(2) show ?thesis
    by (simp add: fun_eq_iff apply_sections_eq map_of_inject_globals split: option.splits)
qed

text \<open>
  C1 (global injection). Let the top-level map hold the key \<open>K\<close> with a value \<open>V\<close> that is
  not a section. Then after \<open>applyGlobalEnvSettings\<close> every section of the top-level map
  that did not define \<open>K\<close> holds \<open>K\<close> with the value \<open>V\<close>.
\<close>

theorem global_injection:
  assumes "distinct (map fst (s root))"
    and "map_of (s root) K = Some V"
    and "\<not> is_section V"
  shows "\<forall>A a. map_of (s root) A = Some (VMap a) \<and> map_of (s a) K = None \<longrightarrow>
           map_of (fst (applyGlobalEnvSettings s root) a) K = Some V"
proof (intro allI impI)
  fix A a
  assume h: "map_of (s root) A = Some (VMap a) \<and> map_of (s a) K = None"
  then have "(A, VMap a) \<in> set (s root)"
    by (auto dest: map_of_SomeD)
  then have sec: "a \<in> sections (s root)"
    by (force simp: sections_def)
  have "map_of (collect_globals (s root) []) K = Some V"
    using assms by (simp add: map_of_collect_globals)
  with h sec show "map_of (fst (applyGlobalEnvSettings s root) a) K = Some V"
    by (simp add: applyGlobalEnvSettings_eq map_of_inject_globals)
qed

theorem global_injection_witness:
  "map_of (fst (applyGlobalEnvSettings two_sections 0) 1) ''name'' = Some (VStr ''X'')
   \<and> map_of (fst (applyGlobalEnvSettings two_sections 0) 1) ''host'' = Some (VStr ''h1'')"
proof -
  have d: "distinct (map fst (two_sections 0))"
    by (simp add: two_sections_def)
  have k: "map_of (two_sections 0) ''name'' = Some (VStr ''X'')"
    by (simp add: two_sections_def)
  have v: "\<not> is_section (VStr ''X'')"
    by (simp add: is_section_def)
  have a: "map_of (two_sections 0) ''server'' = Some (VMap 1) \<and> map_of (two_sections 1) ''name'' = None"
    by (simp add: two_sections_def)
  have "map_of (fst (applyGlobalEnvSettings two_sections 0) 1) ''host'' = Some (VStr ''h1'')"
    by (simp add: applyGlobalEnvSettings_def two_sections_def map_store_def)
  with global_injection [of two_sections 0 "''name''" "VStr ''X''", OF d k v] a show ?thesis
    by blast
qed

text \<open>
  C2 (local precedence). A key that a map holds before the promotion holds the same value
  after it: a global is never written over a key the section defines. This holds for every
  map of the store, the sections of the top-level map among them.
\<close>

theorem local_precedence:
  "map_of (s a) K = Some v \<Longrightarrow>
   map_of (fst (applyGlobalEnvSettings s root) a) K = Some v"
  by (simp add: applyGlobalEnvSettings_eq map_of_inject_globals)

theorem local_precedence_witness:
  "map_of (two_sections 2) ''name'' = Some (VStr ''pg'')
   \<and> map_of (two_sections 0) ''name'' = Some (VStr ''X'')
   \<and> map_of (fst (applyGlobalEnvSettings two_sections 0) 2) ''name'' = Some (VStr ''pg'')"
proof -
  have h: "map_of (two_sections 2) ''name'' = Some (VStr ''pg'')"
    by (simp add: two_sections_def)
  have g: "map_of (two_sections 0) ''name'' = Some (VStr ''X'')"
    by (simp add: two_sections_def)
  from h g local_precedence [of two_sections 2 "''name''" "VStr ''pg''" 0, OF h]
  show ?thesis by simp
qed

text \<open>
  C5 (idempotent promotion). Running the promoter on its own result changes nothing: the
  store and the returned address are those of the first run.
\<close>

theorem idempotent_promotion:
  "applyGlobalEnvSettings (fst (applyGlobalEnvSettings s root)) (snd (applyGlobalEnvSettings s root))
     = applyGlobalEnvSettings s root"
proof -
  let ?g = "collect_globals (s root) []"
  let ?s' = "\<lambda>b. if b \<in> sections (s root) then inject_globals ?g (s b) else s b"
  have r: "applyGlobalEnvSettings s root = (?s', root)"
    by (rule applyGlobalEnvSettings_eq)
  have t: "?s' root = s root"
    using applyGlobalEnvSettings_top [of s root] by (simp add: r)
  have "applyGlobalEnvSettings ?s' root = (?s', root)"
    unfolding applyGlobalEnvSettings_eq [of ?s' root] t
    by (auto simp: inject_globals_idem)
  then show ?thesis
    by (simp add: r)
qed

text \<open>
  C8 (one level deep). The promoter writes only into the sections of the top-level map. A
  map nested inside a section, which is not itself a value of the top-level map, is left as
  it was, and the section still holds it under the same key.
\<close>

theorem promotion_one_level:
  assumes "map_of (s root) A = Some (VMap a)"
    and "map_of (s a) S = Some (VMap c)"
    and "c \<notin> sections (s root)"
  shows "fst (applyGlobalEnvSettings s root) c = s c
         \<and> map_of (fst (applyGlobalEnvSettings s root) a) S = Some (VMap c)"
  using assms by (simp add: applyGlobalEnvSettings_eq map_of_inject_globals)

theorem promotion_one_level_witness:
  "fst (applyGlobalEnvSettings two_sections 0) 3 = [(''size'', VInt 5)]
   \<and> map_of (fst (applyGlobalEnvSettings two_sections 0) 2) ''pool'' = Some (VMap 3)
   \<and> map_of (fst (applyGlobalEnvSettings two_sections 0) 3) ''name'' = None"
proof -
  have a: "map_of (two_sections 0) ''postgres'' = Some (VMap 2)"
    by (simp add: two_sections_def)
  have b: "map_of (two_sections 2) ''pool'' = Some (VMap 3)"
    by (simp add: two_sections_def)
  have c: "3 \<notin> sections (two_sections 0)"
    by (simp add: two_sections_def sections_def)
  have d: "two_sections 3 = [(''size'', VInt 5)]"
    by (simp add: two_sections_def)
  from promotion_one_level [OF a b c] d show ?thesis
    by simp
qed

text \<open>
  C9 (frame). The promoter returns the address it was given; the top-level map has the
  entries it had (no key added or removed, no value replaced); and a map of the store that
  differs afterwards is a section of the top-level map.
\<close>

theorem promotion_frame:
  "snd (applyGlobalEnvSettings s root) = root
   \<and> fst (applyGlobalEnvSettings s root) root = s root
   \<and> (\<forall>b. fst (applyGlobalEnvSettings s root) b \<noteq> s b \<longrightarrow> b \<in> sections (s root))"
  by (simp add: applyGlobalEnvSettings_top) (simp add: applyGlobalEnvSettings_eq)

theorem promotion_frame_witness:
  "snd (applyGlobalEnvSettings two_sections 0) = 0
   \<and> fst (applyGlobalEnvSettings two_sections 0) 0 = two_sections 0
   \<and> fst (applyGlobalEnvSettings two_sections 0) 1 \<noteq> two_sections 1
   \<and> 1 \<in> sections (two_sections 0)"
proof -
  have "fst (applyGlobalEnvSettings two_sections 0) 1 = [(''host'', VStr ''h1''), (''name'', VStr ''X'')]"
    by (simp add: applyGlobalEnvSettings_def two_sections_def map_store_def)
  then have n: "fst (applyGlobalEnvSettings two_sections 0) 1 \<noteq> two_sections 1"
    by (simp add: two_sections_def)
  from promotion_frame [of two_sections 0] n show ?thesis
    by blast
qed

section \<open>Properties of the decoding\<close>




lemma Unmarshal_validation_failure:
  assumes "viper_AllSettings ext s = (s0, settings)"
    and "applyGlobalEnvSettings s0 settings = (s1, allSettings)"
    and "decodeConfig ext s1 allSettings config = (None, config1)"
    and "viper_Unmarshal ext s1 (mapstructureDecodeHook ext) config1 = (None, config2)"
    and "validateConfig ext config2 = Some err"
  shows "Unmarshal ext s config = (Some err, config2)"
  using assms by (simp add: Unmarshal_def)

lemma sublist_Join:
  "e \<in> set es \<Longrightarrow> sublist x e \<Longrightarrow> sublist x (Join es sep)"
proof (induction es sep rule: Join.induct)
  case (1 sep)
  then show ?case by simp
next
  case (2 e' sep)
  then show ?case by simp
next
  case (3 e' v va sep)
  show ?case
  proof (cases "e = e'")
    case True
    with "3.prems" show ?thesis
      by (simp add: sublist_append)
  next
    case False
    with "3.prems" have "e \<in> set (v # va)" by simp
    from "3.IH" [OF this "3.prems"(2)] show ?thesis
      by (simp add: sublist_append)
  qed
qed

lemma sublist_errorMessage:
  "sublist (''field '' @ [CHR 0x27] @ fst e @ [CHR 0x27] @ '' is '' @ snd e) (errorMessage e)"
  unfolding errorMessage_def sublist_def
  by (rule exI [of _ "''validation error: ''"], rule exI [of _ "[]"]) simp


text \<open>
  C7 (validation error format). When validation fails, the error text of \<open>Unmarshal\<close> is
  \<open>errors: \<close> followed by one entry per violated field, in the validator's order, joined
  by a comma and a space. An entry is \<open>validation error: field '<name>' is <rule>\<close>, so the
  text \<open>field '<name>' is <rule>\<close> of every violation, not only of the first, occurs in
  the error text.
\<close>

theorem validation_error_format:
  assumes "viper_AllSettings ext s = (s0, settings)"
    and "applyGlobalEnvSettings s0 settings = (s1, allSettings)"
    and "decodeConfig ext s1 allSettings config = (None, config1)"
    and "viper_Unmarshal ext s1 (mapstructureDecodeHook ext) config1 = (None, config2)"
    and "validator_Struct ext config2 = ValidationErrors errs"
  shows "\<exists>text. Unmarshal ext s config = (Some (ValidationError text), config2)
           \<and> text = ''errors: '' @ Join (map errorMessage errs) '', ''
           \<and> (\<forall>e \<in> set errs. sublist (''field '' @ [CHR 0x27] @ fst e @ [CHR 0x27] @ '' is '' @ snd e) text)"
proof -
  let ?text = "''errors: '' @ Join (map errorMessage errs) '', ''"
  have v: "validateConfig ext config2 = Some (ValidationError ?text)"
    using assms(5) by (simp add: validateConfig_def)
  have "sublist (''field '' @ [CHR 0x27] @ fst e @ [CHR 0x27] @ '' is '' @ snd e) ?text"
    if "e \<in> set errs" for e
  proof -
    from that have "errorMessage e \<in> set (map errorMessage errs)" by simp
    from sublist_Join [OF this sublist_errorMessage]
    show ?thesis
      using sublist_append by blast
  qed
  with Unmarshal_validation_failure [OF assms(1-4) v] show ?thesis
    by blast
qed


subsection \<open>What a decode pass can change\<close>

lemma Name_in_names: "Name t \<in> set (names_ty t)"
  by (cases t) simp_all

lemma decode_scalar_preserves:
  assumes "\<And>r v tgt. W r \<Longrightarrow> J tgt \<Longrightarrow> J (AList.update r v tgt)"
    and "W p" and "J tgt"
  shows "J (snd (decode_scalar t p d tgt))"
  using assms by (simp add: decode_scalar_def split: option.splits)

lemma convert_scalar_preserves:
  assumes "\<And>r v tgt. W r \<Longrightarrow> J tgt \<Longrightarrow> J (AList.update r v tgt)"
    and "W p" and "J tgt"
  shows "J (snd (convert_scalar t snap p src tgt))"
proof -
  have "J (snd (decode_scalar t p v tgt))" for v
    using assms by (simp add: decode_scalar_def split: option.splits)
  with assms(3) show ?thesis
    by (simp add: convert_scalar_def split: option.splits ty.splits)
qed

lemma convert_preserves:
  assumes upd: "\<And>r v tgt. W r \<Longrightarrow> J tgt \<Longrightarrow> J (AList.update r v tgt)"
    and ext: "\<And>r name. W r \<Longrightarrow> W (r @ [name])"
  shows "W p \<Longrightarrow> J tgt \<Longrightarrow> J (snd (convert_data t use_env snap p src tgt))"
    and "(\<And>name. W (p @ [name])) \<Longrightarrow> J tgt
          \<Longrightarrow> J (snd (convert_fields fs use_env snap p es tgt))"
proof (induction t and fs arbitrary: p src tgt and p es tgt)
  case TString
  have "J (snd (convert_scalar TString snap p src tgt))"
    by (rule convert_scalar_preserves [where W = W and J = J]) (use upd TString in auto)
  then show ?case by simp
next
  case TInt
  have "J (snd (convert_scalar TInt snap p src tgt))"
    by (rule convert_scalar_preserves [where W = W and J = J]) (use upd TInt in auto)
  then show ?case by simp
next
  case (TStruct n fs)
  have "\<And>name. W (p @ [name])"
    using TStruct.prems(1) by (rule ext)
  from TStruct.IH [OF this TStruct.prems(2)] TStruct.prems(2)
  show ?case by (simp split: ty.splits)
next
  case NoFields
  then show ?case by simp
next
  case (Field name tg t rest)
  show ?case
  proof (cases "entry_of es (field_key use_env name tg)")
    case None
    with Field.IH(2) [OF Field.prems] show ?thesis by simp
  next
    case (Some src)
    show ?thesis
    proof (cases "exported name")
      case False
      with Some Field.IH(2) [OF Field.prems] show ?thesis by simp
    next
      case True
      obtain e tgt' where c: "convert_data t use_env snap (p @ [name]) src tgt = (e, tgt')"
        by (cases "convert_data t use_env snap (p @ [name]) src tgt")
      have "J (snd (convert_data t use_env snap (p @ [name]) src tgt))"
        by (rule Field.IH(1)) (rule Field.prems)+
      with c have j': "J tgt'" by simp
      have "J (snd (convert_fields rest use_env snap p es tgt'))"
        by (rule Field.IH(2)) (rule Field.prems(1), rule j')
      then show ?thesis
        using Some True c by (auto split: prod.splits)
    qed
  qed
qed

lemma through_hook_preserves:
  assumes upd: "\<And>r v tgt. W r \<Longrightarrow> J tgt \<Longrightarrow> J (AList.update r v tgt)"
    and ext: "\<And>r name. W r \<Longrightarrow> W (r @ [name])"
    and hook: "\<And>h k d tgt. hk = Some h \<Longrightarrow> J tgt \<Longrightarrow> J (snd (h k (Name t) d tgt))"
    and w: "p \<noteq> [] \<Longrightarrow> W p"
    and j: "J tgt"
    and cont: "\<And>d tgt. J tgt \<Longrightarrow> J (snd (continue d tgt))"
  shows "J (snd (through_hook hk root use_env t p input tgt continue))"
proof (cases "input = VNil")
  case True
  with j show ?thesis by (simp add: through_hook_def)
next
  case False
  obtain r tgt' where h: "(case hk of None \<Rightarrow> (Inr (Data input), tgt)
                           | Some h \<Rightarrow> h (kind_of input) (Name t) input tgt) = (r, tgt')"
    by (cases "case hk of None \<Rightarrow> (Inr (Data input), tgt)
                | Some h \<Rightarrow> h (kind_of input) (Name t) input tgt")
  have j': "J tgt'"
  proof (cases hk)
    case None
    with h j show ?thesis by simp
  next
    case (Some hf)
    from hook [OF Some j, of "kind_of input" input] h Some show ?thesis by simp
  qed
  show ?thesis
  proof (cases r)
    case (Inl err)
    with False h j' show ?thesis by (simp add: through_hook_def)
  next
    case (Inr hv)
    show ?thesis
    proof (cases hv)
      case (Data d)
      with False h Inr cont [OF j', of d] show ?thesis by (simp add: through_hook_def)
    next
      case ConfigPtr
      show ?thesis
      proof (cases "p = []")
        case True
        with False h Inr ConfigPtr j' show ?thesis by (simp add: through_hook_def)
      next
        case np: False
        have "J (snd (convert_data t use_env tgt' p ([], root) tgt'))"
          by (rule convert_preserves(1) [where W = W and J = J])
             (use upd ext w [OF np] j' in auto)
        then show ?thesis
          using False h Inr ConfigPtr np by (simp add: through_hook_def)
      qed
    qed
  qed
qed

lemma decode_preserves:
  assumes upd: "\<And>r v tgt. W r \<Longrightarrow> J tgt \<Longrightarrow> J (AList.update r v tgt)"
    and ext: "\<And>r name. W r \<Longrightarrow> W (r @ [name])"
    and hook: "\<And>h k tn d tgt. hk = Some h \<Longrightarrow> tn \<in> N \<Longrightarrow> J tgt \<Longrightarrow> J (snd (h k tn d tgt))"
  shows "set (names_ty t) \<subseteq> N \<Longrightarrow> W p \<Longrightarrow> J tgt
          \<Longrightarrow> J (snd (decode_data t use_env hk root s p d tgt))"
    and "set (names_fields fs) \<subseteq> N \<Longrightarrow> (\<And>name. W (p @ [name])) \<Longrightarrow> J tgt
          \<Longrightarrow> J (snd (decode_fields fs use_env hk root s p m tgt))"
proof (induction t and fs arbitrary: p d tgt and p m tgt)
  case TString
  have "J (snd (decode_scalar TString p d tgt))"
    by (rule decode_scalar_preserves [where W = W and J = J]) (use upd TString in auto)
  then show ?case by simp
next
  case TInt
  have "J (snd (decode_scalar TInt p d tgt))"
    by (rule decode_scalar_preserves [where W = W and J = J]) (use upd TInt in auto)
  then show ?case by simp
next
  case (TStruct n fs)
  have w: "\<And>name. W (p @ [name])"
    using TStruct.prems(2) by (rule ext)
  have n: "set (names_fields fs) \<subseteq> N"
    using TStruct.prems(1) by simp
  from TStruct.IH [OF n w TStruct.prems(3)] TStruct.prems(3)
  show ?case by (simp split: val.splits)
next
  case NoFields
  then show ?case by simp
next
  case (Field name tg t rest)
  have nt: "set (names_ty t) \<subseteq> N" and nr: "set (names_fields rest) \<subseteq> N"
    using Field.prems(1) by simp_all
  have rest: "\<And>tgt. J tgt \<Longrightarrow> J (snd (decode_fields rest use_env hk root s p m tgt))"
    using Field.IH(2) [OF nr Field.prems(2)] by simp
  show ?case
  proof (cases "lookup_key m (field_key use_env name tg)")
    case None
    with rest [OF Field.prems(3)] show ?thesis by simp
  next
    case (Some raw)
    show ?thesis
    proof (cases "exported name")
      case False
      with Some rest [OF Field.prems(3)] show ?thesis by simp
    next
      case True
      let ?r = "through_hook hk root use_env t (p @ [name]) raw tgt
                  (decode_data t use_env hk root s (p @ [name]))"
      obtain e tgt' where th: "?r = (e, tgt')"
        by (cases ?r)
      have "Name t \<in> N"
        using nt Name_in_names by blast
      then have hk': "\<And>h k d tgt. hk = Some h \<Longrightarrow> J tgt \<Longrightarrow> J (snd (h k (Name t) d tgt))"
        using hook by blast
      have "J (snd ?r)"
      proof (rule through_hook_preserves [where W = W and J = J])
        show "\<And>r v tgt. W r \<Longrightarrow> J tgt \<Longrightarrow> J (AList.update r v tgt)" by (rule upd)
        show "\<And>r name. W r \<Longrightarrow> W (r @ [name])" by (rule ext)
        show "\<And>h k d tgt. hk = Some h \<Longrightarrow> J tgt \<Longrightarrow> J (snd (h k (Name t) d tgt))" by (rule hk')
        show "W (p @ [name])" by (rule Field.prems(2))
        show "J tgt" by (rule Field.prems(3))
        fix d tgt assume "J tgt"
        with Field.IH(1) [OF nt Field.prems(2)]
        show "J (snd (decode_data t use_env hk root s (p @ [name]) d tgt))" by simp
      qed
      with th have j': "J tgt'" by simp
      obtain e' tgt'' where r: "decode_fields rest use_env hk root s p m tgt' = (e', tgt'')"
        by (cases "decode_fields rest use_env hk root s p m tgt'")
      with rest [OF j'] have "J tgt''" by simp
      with j' show ?thesis
        using Some True th r by (simp split: option.splits error.splits)
    qed
  qed
qed

text \<open>
  The fields of the target itself are decoded at the empty path. A top-level field \<open>F\<close> is
  written there only when the mapping holds the key of a field of that name.
\<close>

lemma root_fields_preserve:
  assumes upd: "\<And>r v tgt. r \<noteq> [] \<and> r \<noteq> [F] \<Longrightarrow> J tgt \<Longrightarrow> J (AList.update r v tgt)"
    and hook: "\<And>h k tn d tgt. hk = Some h \<Longrightarrow> tn \<in> N \<Longrightarrow> J tgt \<Longrightarrow> J (snd (h k tn d tgt))"
  shows "(t :: ty) = t"
    and "set (names_fields fs) \<subseteq> N
          \<Longrightarrow> \<forall>e \<in> set (field_list fs).
                fst e = F \<longrightarrow> lookup_key m (field_key use_env (fst e) (fst (snd e))) = None
          \<Longrightarrow> J tgt
          \<Longrightarrow> J (snd (decode_fields fs use_env hk root s [] m tgt))"
proof (induction t and fs arbitrary: and tgt)
  case (Field name tg t rest)
  have ext: "\<And>r name. r \<noteq> [] \<and> r \<noteq> [F] \<Longrightarrow> r @ [name] \<noteq> [] \<and> r @ [name] \<noteq> [F]"
    by auto
  have nt: "set (names_ty t) \<subseteq> N" and nr: "set (names_fields rest) \<subseteq> N"
    using Field.prems(1) by simp_all
  have ur: "\<forall>e \<in> set (field_list rest).
              fst e = F \<longrightarrow> lookup_key m (field_key use_env (fst e) (fst (snd e))) = None"
    using Field.prems(2) by simp
  have rest: "\<And>tgt. J tgt \<Longrightarrow> J (snd (decode_fields rest use_env hk root s [] m tgt))"
    using Field.IH(2) [OF nr ur] by simp
  show ?case
  proof (cases "lookup_key m (field_key use_env name tg)")
    case None
    with rest [OF Field.prems(3)] show ?thesis by simp
  next
    case (Some raw)
    show ?thesis
    proof (cases "exported name")
      case False
      with Some rest [OF Field.prems(3)] show ?thesis by simp
    next
      case True
      from Some Field.prems(2) have nF: "name \<noteq> F"
        by auto
      let ?r = "through_hook hk root use_env t [name] raw tgt
                  (decode_data t use_env hk root s [name])"
      obtain e tgt' where th: "?r = (e, tgt')"
        by (cases ?r)
      have "Name t \<in> N"
        using nt Name_in_names by blast
      then have hk': "\<And>h k d tgt. hk = Some h \<Longrightarrow> J tgt \<Longrightarrow> J (snd (h k (Name t) d tgt))"
        using hook by blast
      have "J (snd ?r)"
      proof (rule through_hook_preserves [where W = "\<lambda>r. r \<noteq> [] \<and> r \<noteq> [F]" and J = J])
        show "\<And>r v tgt. r \<noteq> [] \<and> r \<noteq> [F] \<Longrightarrow> J tgt \<Longrightarrow> J (AList.update r v tgt)"
          by (rule upd)
        show "\<And>r name. r \<noteq> [] \<and> r \<noteq> [F] \<Longrightarrow> r @ [name] \<noteq> [] \<and> r @ [name] \<noteq> [F]"
          by (rule ext)
        show "\<And>h k d tgt. hk = Some h \<Longrightarrow> J tgt \<Longrightarrow> J (snd (h k (Name t) d tgt))"
          by (rule hk')
        show "[name] \<noteq> [] \<and> [name] \<noteq> [F]"
          using nF by simp
        show "J tgt" by (rule Field.prems(3))
        fix d tgt assume j: "J tgt"
        show "J (snd (decode_data t use_env hk root s [name] d tgt))"
          by (rule decode_preserves(1) [where W = "\<lambda>r. r \<noteq> [] \<and> r \<noteq> [F]" and J = J and N = N])
             (use upd hook nt nF j in auto)
      qed
      with th have j': "J tgt'" by simp
      obtain e' tgt'' where r: "decode_fields rest use_env hk root s [] m tgt' = (e', tgt'')"
        by (cases "decode_fields rest use_env hk root s [] m tgt'")
      with rest [OF j'] have "J tgt''" by simp
      with j' show ?thesis
        using Some True th r by (simp split: option.splits error.splits)
    qed
  qed
qed simp_all





subsection \<open>A required field that no source feeds\<close>










subsection \<open>Settings in which no key names a type\<close>

text \<open>
  When no map of the settings has a key equal to the lower-cased name of a type of the
  target, the hook hands every value back as it is, and the decoder writes each exported
  scalar field from the key that matches it.
\<close>

lemma hook_no_key:
  "map_of (s m) (ToLower tn) = None
   \<Longrightarrow> mapstructureDecodeHook ext s f tn (VMap m) config = (Inr (Data (VMap m)), config)"
  by (simp add: mapstructureDecodeHook_def)

lemma hook_scalar:
  "mapstructureDecodeHook ext s KOther tn d config = (Inr (Data d), config)"
  by (simp add: mapstructureDecodeHook_def)

lemma hook_inert:
  "\<forall>a. map_of (s a) (ToLower tn) = None \<Longrightarrow> snd (mapstructureDecodeHook ext s k tn d config) = config"
  by (cases d) (simp_all add: mapstructureDecodeHook_def)

lemma both_None: "both e e' = None \<Longrightarrow> e = None \<and> e' = None"
  by (induction e e' rule: both.induct) simp_all

lemma weak_kind: "weak gt raw = Some x \<Longrightarrow> kind_of raw = KOther \<and> raw \<noteq> VNil"
  by (cases gt; cases raw) auto

lemma weak_decode:
  "weak gt raw = Some x \<Longrightarrow> decode_data gt use_env hk root s p raw tgt = (None, AList.update p x tgt)"
  by (cases gt) (auto simp: decode_scalar_def)

lemma fields_populate:
  fixes ext :: "target collaborators"
  defines "h \<equiv> mapstructureDecodeHook ext"
  assumes inert: "\<forall>tn \<in> N. \<forall>a. map_of (s a) (ToLower tn) = None"
  shows "(t :: ty) = t"
    and "set (names_fields fs) \<subseteq> N \<Longrightarrow> distinct (map fst (field_list fs))
          \<Longrightarrow> (G, tg, gt) \<in> set (field_list fs) \<Longrightarrow> exported G
          \<Longrightarrow> lookup_key m (field_key use_env G tg) = Some raw \<Longrightarrow> weak gt raw = Some x
          \<Longrightarrow> decode_fields fs use_env (Some (h s)) root s [] m tgt = (None, tgt')
          \<Longrightarrow> map_of tgt' [G] = Some x"
proof (induction t and fs arbitrary: and tgt)
  case (Field name tg' t rest)
  have nr: "set (names_fields rest) \<subseteq> N"
    using Field.prems(1) by simp
  have dr: "distinct (map fst (field_list rest))"
    using Field.prems(2) by simp
  have hookJ: "\<And>hf k tn d tgt. Some (h s) = Some hf \<Longrightarrow> tn \<in> N \<Longrightarrow> map_of tgt [G] = Some x
                 \<Longrightarrow> map_of (snd (hf k tn d tgt)) [G] = Some x"
    using inert by (auto simp: h_def hook_inert)
  show ?case
  proof (cases "name = G")
    case True
    from Field.prems(2) True have notin: "G \<notin> fst ` set (field_list rest)"
      by simp
    with Field.prems(3) True have same: "tg' = tg" "t = gt"
      by (auto simp: image_iff)
    let ?u = "AList.update [G] x tgt"
    have th: "through_hook (Some (h s)) root use_env gt [G] raw tgt
                (decode_data gt use_env (Some (h s)) root s [G]) = (None, ?u)"
      using weak_kind [OF Field.prems(6)] weak_decode [OF Field.prems(6)]
      by (simp add: through_hook_def h_def hook_scalar)
    obtain e' tgt'' where r: "decode_fields rest use_env (Some (h s)) root s [] m ?u = (e', tgt'')"
      by (cases "decode_fields rest use_env (Some (h s)) root s [] m ?u")
    from Field.prems(7) True same Field.prems(4,5) th r have "tgt'' = tgt'"
      by simp
    have "map_of (snd (decode_fields rest use_env (Some (h s)) root s [] m ?u)) [G] = Some x"
    proof (rule root_fields_preserve(2) [where J = "\<lambda>tgt. map_of tgt [G] = Some x" and N = N and F = G])
      show "\<And>r v tgt. r \<noteq> [] \<and> r \<noteq> [G] \<Longrightarrow> map_of tgt [G] = Some x
              \<Longrightarrow> map_of (AList.update r v tgt) [G] = Some x"
        by (auto simp: update_conv')
      show "\<And>hf k tn d tgt. Some (h s) = Some hf \<Longrightarrow> tn \<in> N \<Longrightarrow> map_of tgt [G] = Some x
              \<Longrightarrow> map_of (snd (hf k tn d tgt)) [G] = Some x"
        by (rule hookJ)
      show "set (names_fields rest) \<subseteq> N" by (rule nr)
      show "\<forall>e \<in> set (field_list rest).
              fst e = G \<longrightarrow> lookup_key m (field_key use_env (fst e) (fst (snd e))) = None"
        using notin by auto
      show "map_of ?u [G] = Some x"
        by (simp add: update_conv')
    qed
    with r \<open>tgt'' = tgt'\<close> show ?thesis by simp
  next
    case False
    with Field.prems(3) have mem: "(G, tg, gt) \<in> set (field_list rest)"
      by auto
    have ih: "decode_fields rest use_env (Some (h s)) root s [] m tgt1 = (None, tgt')
              \<Longrightarrow> map_of tgt' [G] = Some x" for tgt1
      by (rule Field.IH(2) [OF nr dr mem Field.prems(4,5,6)])
    show ?thesis
    proof (cases "lookup_key m (field_key use_env name tg')")
      case None
      with Field.prems(7) ih show ?thesis by simp
    next
      case (Some raw')
      show ?thesis
      proof (cases "exported name")
        case False
        with Some Field.prems(7) ih show ?thesis by simp
      next
        case True
        let ?r = "through_hook (Some (h s)) root use_env t [name] raw' tgt
                    (decode_data t use_env (Some (h s)) root s [name])"
        obtain e tgt1 where th: "?r = (e, tgt1)"
          by (cases ?r)
        obtain e' tgt'' where r: "decode_fields rest use_env (Some (h s)) root s [] m tgt1 = (e', tgt'')"
          by (cases "decode_fields rest use_env (Some (h s)) root s [] m tgt1")
        from Field.prems(7) Some True th r have "both e e' = None \<and> tgt'' = tgt'"
          by (simp split: option.splits error.splits)
        then have "e' = None" and "tgt'' = tgt'"
          using both_None by blast+
        with r ih show ?thesis by simp
      qed
    qed
  qed
qed simp_all

text \<open>
  C6 (section-matcher fallback), as amended. When the mapping handed to the hook has no key
  equal to the lower-cased type name, the hook returns that mapping unchanged, without an
  error and without touching the target. For the structure passed to \<open>Unmarshal\<close>: when no
  map of the settings has a key equal to the lower-cased name of one of its types and the
  viper pass succeeds, every exported scalar field of the structure whose name matches a
  top-level key holds, after that pass, the value of that key, weakly coerced.
\<close>

theorem hook_fallback:
  "(\<forall>(ext :: 'c collaborators) (s :: store) f tn m config.
      map_of (s m) (ToLower tn) = None \<longrightarrow>
      mapstructureDecodeHook ext s f tn (VMap m) config = (Inr (Data (VMap m)), config))
   \<and> (\<forall>(ext :: target collaborators) nm fs (build :: source) n s tgt tgt' G tg gt raw x.
        (\<forall>tn \<in> set (names_ty (TStruct nm fs)). \<forall>a. map_of (build n s a) (ToLower tn) = None)
        \<and> distinct (map fst (field_list fs)) \<and> (G, tg, gt) \<in> set (field_list fs) \<and> exported G
        \<and> lookup_key (build n s n) G = Some raw \<and> weak gt raw = Some x
        \<and> viperUnmarshal (TStruct nm fs) build n s (mapstructureDecodeHook ext) tgt = (None, tgt')
        \<longrightarrow> map_of tgt' [G] = Some x)"
proof (intro conjI allI impI)
  fix ext :: "'c collaborators" and s :: store and f tn m config
  assume "map_of (s m) (ToLower tn) = None"
  then show "mapstructureDecodeHook ext s f tn (VMap m) config = (Inr (Data (VMap m)), config)"
    by (rule hook_no_key)
next
  fix ext :: "target collaborators" and nm fs and build :: source and n s tgt tgt' G tg gt raw x
  let ?t = "TStruct nm fs"
  let ?s = "build n s"
  assume a: "(\<forall>tn \<in> set (names_ty ?t). \<forall>a. map_of (?s a) (ToLower tn) = None)
        \<and> distinct (map fst (field_list fs)) \<and> (G, tg, gt) \<in> set (field_list fs) \<and> exported G
        \<and> lookup_key (?s n) G = Some raw \<and> weak gt raw = Some x
        \<and> viperUnmarshal ?t build n s (mapstructureDecodeHook ext) tgt = (None, tgt')"
  then have inert: "\<forall>tn \<in> set (names_ty ?t). \<forall>a. map_of (?s a) (ToLower tn) = None"
    and d: "distinct (map fst (field_list fs))" and g: "(G, tg, gt) \<in> set (field_list fs)"
    and ex: "exported G" and l: "lookup_key (?s n) (field_key False G tg) = Some raw"
    and w: "weak gt raw = Some x"
    and v: "viperUnmarshal ?t build n s (mapstructureDecodeHook ext) tgt = (None, tgt')"
    by (simp_all add: field_key_def)
  from inert have "map_of (?s n) (ToLower nm) = None"
    by simp
  then have "mapstructureDecodeHook ext ?s KMap nm (VMap n) tgt = (Inr (Data (VMap n)), tgt)"
    by (rule hook_no_key)
  with v have f: "decode_fields fs False (Some (mapstructureDecodeHook ext ?s)) ?t ?s [] (?s n) tgt
                   = (None, tgt')"
    by (simp add: viperUnmarshal_def AllSettings_def decode_value_def through_hook_def)
  have n: "set (names_fields fs) \<subseteq> set (names_ty ?t)"
    by auto
  show "map_of tgt' [G] = Some x"
    by (rule fields_populate(2) [OF inert n d g ex l w f])
qed

subsection \<open>The examples, run\<close>


lemma readme_ServerConfig:
  "Unmarshal (libraries ServerConfig readme_settings 4) (\<lambda>_. []) (zero_ty ServerConfig []) =
     (None,
      [([''Name''], VStr ''my_default_server_name''),
       ([''Host''], VStr ''localhost2''),
       ([''Port''], VInt 9000),
       ([''APIKey''], VStr ''my_default_api_key''),
       ([''Environment''], VStr ''dev3'')])"
  by code_simp

text \<open>
  When the section of a field holds a section named after the field's type, the hook
  decodes the whole target from the inner section and hands the pointer back; the decoder
  converts the target into the field, and the pass returns no error.
\<close>

lemma nested_run:
  "Unmarshal (libraries Outer nested_settings 3) (\<lambda>_. []) (zero_ty Outer []) =
     (None, [([''Inner'', ''Host''], VStr [])])"
  by code_simp

lemma listener_AllSettings:
  "viper_AllSettings (libraries Listener scenario_settings 2) (\<lambda>_. []) =
     (scenario_settings 0 (\<lambda>_. []), 0)"
  by (simp add: libraries_def AllSettings_def)

lemma scenario_promoted:
  "applyGlobalEnvSettings (scenario_settings 0 (\<lambda>_. [])) 0 =
     (fst (applyGlobalEnvSettings (scenario_settings 0 (\<lambda>_. [])) 0), 0)"
  by (simp add: applyGlobalEnvSettings_def)

lemma listener_decodeConfig:
  "decodeConfig (libraries Listener scenario_settings 2)
     (fst (applyGlobalEnvSettings (scenario_settings 0 (\<lambda>_. [])) 0)) 0 (zero_ty Listener []) =
     (None, [([''Port''], VInt 0), ([''Cert''], VStr [])])"
  by code_simp

lemma listener_viper_Unmarshal:
  "viper_Unmarshal (libraries Listener scenario_settings 2)
     (fst (applyGlobalEnvSettings (scenario_settings 0 (\<lambda>_. [])) 0))
     (mapstructureDecodeHook (libraries Listener scenario_settings 2))
     [([''Port''], VInt 0), ([''Cert''], VStr [])] =
     (None, [([''Port''], VInt 0), ([''Cert''], VStr [])])"
  by code_simp

lemma listener_validator_Struct:
  "validator_Struct (libraries Listener scenario_settings 2)
     [([''Port''], VInt 0), ([''Cert''], VStr [])] =
     ValidationErrors [(''Port'', ''required''), (''Cert'', ''required'')]"
  by code_simp

theorem validation_error_format_witness:
  "\<exists>text. Unmarshal (libraries Listener scenario_settings 2) (\<lambda>_. []) (zero_ty Listener []) =
            (Some (ValidationError text), [([''Port''], VInt 0), ([''Cert''], VStr [])])
     \<and> text = ''errors: validation error: field '' @ [CHR 0x27] @ ''Port'' @ [CHR 0x27] @
              '' is required, validation error: field '' @ [CHR 0x27] @ ''Cert'' @ [CHR 0x27] @
              '' is required''
     \<and> sublist (''field '' @ [CHR 0x27] @ ''Port'' @ [CHR 0x27] @ '' is required'') text
     \<and> sublist (''field '' @ [CHR 0x27] @ ''Cert'' @ [CHR 0x27] @ '' is required'') text"
  using validation_error_format [OF listener_AllSettings scenario_promoted
      listener_decodeConfig listener_viper_Unmarshal listener_validator_Struct]
  by (simp add: errorMessage_def)

lemma lower_keys:
  "ToLower ''PORT'' = ''port''" "ToLower ''Port'' = ''port''" "ToLower ''name'' = ''name''"
  "ToLower ''server'' = ''server''" "ToLower ''host'' = ''host''"
  "ToLower ''server_port'' = ''server_port''" "ToLower ''ServerConfig'' = ''serverconfig''"
  "ToLower ''string'' = ''string''" "ToLower ''int'' = ''int''"
  by code_simp+




lemma global_settings_inert:
  "\<forall>tn \<in> set (names_ty ServerConfig). \<forall>a. map_of (global_settings 1 (\<lambda>_. []) a) (ToLower tn) = None"
  by (simp add: ServerConfig_def global_settings_def lower_keys)

lemma global_settings_host:
  "lookup_key (global_settings 1 (\<lambda>_. []) 1) ''Host'' = Some (VStr ''h0'')"
  by code_simp

lemma global_settings_viper:
  "viperUnmarshal ServerConfig global_settings 1 (\<lambda>_. [])
     (mapstructureDecodeHook (libraries ServerConfig global_settings 1)) (zero_ty ServerConfig []) =
   (None,
    [([''Name''], VStr []), ([''Host''], VStr ''h0''), ([''Port''], VInt 0),
     ([''APIKey''], VStr []), ([''Environment''], VStr [])])"
  by code_simp

theorem hook_fallback_witness:
  "mapstructureDecodeHook (libraries ServerConfig global_settings 1) (global_settings 1 (\<lambda>_. []))
     KMap ''ServerConfig'' (VMap 1) (zero_ty ServerConfig []) =
     (Inr (Data (VMap 1)), zero_ty ServerConfig [])
   \<and> map_of (snd (viperUnmarshal ServerConfig global_settings 1 (\<lambda>_. [])
                (mapstructureDecodeHook (libraries ServerConfig global_settings 1))
                (zero_ty ServerConfig []))) [''Host''] = Some (VStr ''h0'')"
proof -
  let ?ext = "libraries ServerConfig global_settings 1"
  let ?s = "global_settings 1 (\<lambda>_. [])"
  let ?tg = "tagged ''HOST'' True None"
  obtain fs where t: "ServerConfig = TStruct ''ServerConfig'' fs"
    and g: "(''Host'', ?tg, TString) \<in> set (field_list fs)"
    and d: "distinct (map fst (field_list fs))"
    by (simp add: ServerConfig_def)
  have n: "map_of (?s 1) (ToLower ''ServerConfig'') = None"
    using global_settings_inert by (simp add: ServerConfig_def)
  have e: "exported ''Host''"
    by (simp add: exported_def)
  have w: "weak TString (VStr ''h0'') = Some (VStr ''h0'')"
    by simp
  from hook_fallback [THEN conjunct1, rule_format, where s = ?s and m = 1
         and tn = "''ServerConfig''" and ext = ?ext and f = KMap
         and config = "zero_ty ServerConfig []", OF n]
  have one: "mapstructureDecodeHook ?ext ?s KMap ''ServerConfig'' (VMap 1) (zero_ty ServerConfig [])
              = (Inr (Data (VMap 1)), zero_ty ServerConfig [])" .
  from hook_fallback [THEN conjunct2, rule_format, where build = global_settings and n = 1
         and s = "\<lambda>_. []" and nm = "''ServerConfig''" and fs = fs and G = "''Host''" and tg = ?tg
         and gt = TString and raw = "VStr ''h0''" and x = "VStr ''h0''" and ext = ?ext
         and tgt = "zero_ty ServerConfig []"]
       global_settings_inert global_settings_host global_settings_viper d g e w
  have two: "map_of (snd (viperUnmarshal ServerConfig global_settings 1 (\<lambda>_. [])
                (mapstructureDecodeHook ?ext) (zero_ty ServerConfig []))) [''Host''] = Some (VStr ''h0'')"
    by (simp add: t [symmetric])
  from one two show ?thesis by simp
qed

text \<open>
  C6 as stated fails for a nested structured field. The settings \<^verbatim>\<open>{host: "h0", ...}\<close>
  have no key \<open>inner\<close>, the lower-cased name of the type of \<open>Outer.Inner\<close>, and they have a
  key that matches \<open>Host\<close>; yet \<open>Inner.Host\<close> is empty after \<open>Unmarshal\<close>. The decoder
  finds no mapping under the field's own key, skips the field and never calls the hook.
\<close>

theorem hook_fallback_counterexample:
  "map_of (global_settings 0 (\<lambda>_. []) 0) (ToLower (Name Inner)) = None
   \<and> lookup_key (global_settings 0 (\<lambda>_. []) 0) ''Host'' = Some (VStr ''h0'')
   \<and> Unmarshal (libraries Outer global_settings 1) (\<lambda>_. []) (zero_ty Outer []) =
       (None, [([''Inner'', ''Host''], VStr [])])"
  by code_simp







text \<open>
  C10 (decode-hook totality) does not hold of the code. For the settings
  \<^verbatim>\<open>{database: "postgres://db", host: "h0"}\<close> and the target \<^verbatim>\<open>Database\<close>, the key
  \<open>database\<close> is found and holds a string; the type assertion
  \<^verbatim>\<open>v.(map[string]interface{})\<close> panics, and so does \<open>Unmarshal\<close>.
\<close>

theorem hook_scalar_panics:
  "mapstructureDecodeHook (libraries Database url_settings 1) (url_settings 0 (\<lambda>_. []))
     KMap ''Database'' (VMap 0) (zero_ty Database []) =
     (Inl (Panic ''interface conversion: interface {} is not map[string]interface {}''),
      zero_ty Database [])
   \<and> fst (Unmarshal (libraries Database url_settings 1) (\<lambda>_. []) (zero_ty Database [])) =
     Some (Panic ''interface conversion: interface {} is not map[string]interface {}'')"
  by code_simp

end
